theory Spec2Isabelle
  imports Complex_Main "HOL-Library.Word"
begin

section \<open>Python values used by the service\<close>

text \<open>
  The service is Python code on top of FastAPI, Pydantic, Pillow, NumPy and Keras.
  Exceptions are values: a raise is \<open>Inl e\<close>, a normal return is \<open>Inr v\<close>.
  Only the part of the exception class hierarchy that the handlers of the service
  can tell apart is kept. \<open>UnidentifiedImageError\<close> is Pillow's error for bytes that
  no image plugin recognises and derives from \<open>OSError\<close>; Pydantic's
  \<open>ValidationError\<close> derives from \<open>ValueError\<close>; \<open>IndexError\<close> derives from
  \<open>LookupError\<close>. FastAPI's \<open>HTTPException\<close> derives from \<open>Exception\<close> directly
  and carries a status code and a detail text.
\<close>

type_synonym byte = "8 word"

datatype exc_class =
    Exception
  | ValueError
  | RuntimeError
  | OSError
  | UnidentifiedImageError
  | LookupError
  | IndexError
  | ValidationError
  | AttributeError

datatype exn =
    Raised exc_class string
  | HTTPException int string

fun mro :: "exc_class \<Rightarrow> exc_class list" where
  "mro Exception = [Exception]"
| "mro ValueError = [ValueError, Exception]"
| "mro RuntimeError = [RuntimeError, Exception]"
| "mro OSError = [OSError, Exception]"
| "mro UnidentifiedImageError = [UnidentifiedImageError, OSError, Exception]"
| "mro LookupError = [LookupError, Exception]"
| "mro IndexError = [IndexError, LookupError, Exception]"
| "mro ValidationError = [ValidationError, ValueError, Exception]"
| "mro AttributeError = [AttributeError, Exception]"

fun isinstance :: "exn \<Rightarrow> exc_class \<Rightarrow> bool" where
  "isinstance (Raised c m) k = (k \<in> set (mro c))"
| "isinstance (HTTPException code detail) k = (k = Exception)"

subsection \<open>Strings: \<open>str.split\<close>, \<open>str.strip\<close> and \<open>int\<close>\<close>

text \<open>
  A character is a code point below 256. The white space that \<open>str.strip\<close> and
  \<open>int\<close> remove are, in that range, the code points 9 to 13, 28 to 32, 133 (U+0085)
  and 160 (U+00A0); the decimal digits are 0 to 9.
\<close>

fun split_on :: "char \<Rightarrow> string \<Rightarrow> string list" where
  "split_on c [] = [[]]"
| "split_on c (x # xs) =
     (if x = c then [] # split_on c xs
      else (case split_on c xs of
              [] \<Rightarrow> [[x]]
            | w # ws \<Rightarrow> (x # w) # ws))"

definition is_space :: "char \<Rightarrow> bool" where
  "is_space c =
     (let n = of_char c :: nat
      in (9 \<le> n \<and> n \<le> 13) \<or> (28 \<le> n \<and> n \<le> 32) \<or> n = 133 \<or> n = 160)"

definition strip :: "string \<Rightarrow> string" where
  "strip s = rev (dropWhile is_space (rev (dropWhile is_space s)))"

definition is_digit :: "char \<Rightarrow> bool" where
  "is_digit c = (let n = of_char c :: nat in 48 \<le> n \<and> n \<le> 57)"

definition digit_val :: "char \<Rightarrow> int" where
  "digit_val c = int (of_char c) - 48"

definition py_digits :: "string \<Rightarrow> int option" where
  "py_digits s =
     (let gs = split_on (CHR ''_'') s
      in if list_all (\<lambda>g. g \<noteq> [] \<and> list_all is_digit g) gs
         then Some (foldl (\<lambda>a c. 10 * a + digit_val c) 0 (concat gs))
         else None)"

definition py_int :: "string \<Rightarrow> int option" where
  "py_int s =
     (case strip s of
        [] \<Rightarrow> None
      | c # r \<Rightarrow>
          if c = CHR ''-'' then map_option uminus (py_digits r)
          else if c = CHR ''+'' then py_digits r
          else py_digits (c # r))"

section \<open>Configuration (app/core/config.py)\<close>

record settings =
  MAX_FILE_SIZE :: int
  ALLOWED_IMAGE_TYPES :: string
  MODEL_PATH :: string
  MODEL_INPUT_SIZE :: string
  CONFIDENCE_THRESHOLD :: real

definition default_settings :: settings where
  "default_settings =
     \<lparr> MAX_FILE_SIZE = 50 * 1024 * 1024,
       ALLOWED_IMAGE_TYPES = ''image/jpeg,image/png,image/tiff,image/bmp'',
       MODEL_PATH = ''./models/lung_cancer_model.h5'',
       MODEL_INPUT_SIZE = ''224,224'',
       CONFIDENCE_THRESHOLD = 1 / 2 \<rparr>"

definition get_model_input_size :: "settings \<Rightarrow> int \<times> int" where
  "get_model_input_size st =
     (case split_on (CHR '','') (MODEL_INPUT_SIZE st) of
        [width, height] \<Rightarrow>
          (case (py_int (strip width), py_int (strip height)) of
             (Some w, Some h) \<Rightarrow> (w, h)
           | _ \<Rightarrow> (224, 224))
      | _ \<Rightarrow> (224, 224))"

definition get_allowed_image_types :: "settings \<Rightarrow> string list" where
  "get_allowed_image_types st = map strip (split_on (CHR '','') (ALLOWED_IMAGE_TYPES st))"

section \<open>The image processor (app/services/image_processor.py)\<close>

text \<open>
  Arrays are nested lists of numbers. A sample is the real number that the floating
  point value denotes; an operation that rounds is written with its rounding. A Keras
  model is seen through its \<open>predict\<close> method only: it maps a batched tensor to one row
  of class scores per example, or raises.
\<close>

datatype ndarray = Scalar real | Arr "ndarray list"

type_synonym keras_model = "ndarray \<Rightarrow> exn + real list list"

record processor =
  model :: "keras_model option"
  model_loaded :: bool

text \<open>
  Methods take the processor object and return it next to their result, so that an
  assignment to \<open>self.model\<close> or \<open>self.model_loaded\<close> would show in the second component.
\<close>

definition validate_image ::
  "settings \<Rightarrow> processor \<Rightarrow> string option \<Rightarrow> int \<Rightarrow> bool \<times> processor" where
  "validate_image st self content_type file_size =
     (if (case content_type of None \<Rightarrow> True | Some c \<Rightarrow> c = [])
         \<or> (case content_type of None \<Rightarrow> True
             | Some c \<Rightarrow> c \<notin> set (get_allowed_image_types st))
      then (False, self)
      else if file_size > MAX_FILE_SIZE st then (False, self)
      else (True, self))"

subsection \<open>Results (app/schemas/prediction.py)\<close>

record ImageInfo =
  width :: int
  height :: int
  channels :: int
  format :: "string option"

record ImageStats =
  mean_intensity :: real
  std_intensity :: real
  shape :: "nat list"
  size_bytes :: "int option"

record PredictionResult =
  prediction :: string
  confidence :: real
  probabilities :: "(string \<times> real) list"
  processing_time_ms :: real

record PredictionResponse =
  status :: string
  filename :: string
  image_info :: ImageInfo
  image_stats :: ImageStats
  prediction_result :: PredictionResult
  message :: string
  timestamp :: string

text \<open>
  The constructor of \<open>PredictionResult\<close> validates its fields; the only constraint a
  value of the right types can break is \<open>confidence: float = Field(..., ge=0.0, le=1.0)\<close>.
\<close>

definition new_PredictionResult :: "PredictionResult \<Rightarrow> exn + PredictionResult" where
  "new_PredictionResult r =
     (if 0 \<le> confidence r \<and> confidence r \<le> 1 then Inr r
      else Inl (Raised ValidationError ''1 validation error for PredictionResult''))"

subsection \<open>The libraries the processor calls\<close>

text \<open>
  Pillow, NumPy's array conversion and statistics, the Keras loader, the file
  system and the clocks are outside the repository. They are parameters of the model:
  a Pillow image is a value of a type \<open>'img\<close> seen through the attributes and methods
  the service uses. \<open>Image_resize\<close> is \<open>Image.resize\<close> with the Lanczos filter,
  \<open>np_array_float32\<close> is \<open>np.array(image, dtype=np.float32)\<close>, \<open>keras_load_model\<close> is
  \<open>import keras\<close> followed by \<open>keras.models.load_model\<close>, \<open>time_start\<close> and
  \<open>time_end\<close> are the two readings of \<open>time.time()\<close> in \<open>predict\<close>.
\<close>

record 'img ext =
  Image_open :: "byte list \<Rightarrow> exn + 'img"
  Image_size :: "'img \<Rightarrow> int \<times> int"
  Image_mode :: "'img \<Rightarrow> string"
  Image_format :: "'img \<Rightarrow> string option"
  Image_getbands :: "'img \<Rightarrow> string list"
  Image_convert :: "'img \<Rightarrow> string \<Rightarrow> exn + 'img"
  Image_resize :: "'img \<Rightarrow> int \<times> int \<Rightarrow> exn + 'img"
  np_array :: "'img \<Rightarrow> exn + ndarray"
  np_array_float32 :: "'img \<Rightarrow> exn + ndarray"
  np_mean :: "ndarray \<Rightarrow> real"
  np_std :: "ndarray \<Rightarrow> real"
  keras_load_model :: "string \<Rightarrow> exn + keras_model"
  os_path_abspath :: "string \<Rightarrow> string"
  time_start :: real
  time_end :: real
  utcnow_isoformat :: string

subsection \<open>Arrays\<close>

fun nd_shape :: "ndarray \<Rightarrow> nat list" where
  "nd_shape (Scalar x) = []"
| "nd_shape (Arr xs) = length xs # (case xs of [] \<Rightarrow> [] | a # as \<Rightarrow> nd_shape a)"

fun nd_samples :: "ndarray \<Rightarrow> real list" where
  "nd_samples (Scalar x) = [x]"
| "nd_samples (Arr xs) = concat (map nd_samples xs)"

text \<open>
  Rounding to 32-bit floating point, to the nearest value and to the even one of two
  nearest: the values around \<open>q\<close> are the multiples of \<open>2 powi (e - 23)\<close>, where \<open>e\<close>
  is the exponent of \<open>q\<close>, between -126 and 127. (Beyond the largest finite value the
  machine gives infinity; a quotient of a 32-bit float by 255 does not get there.)
\<close>

definition round_even :: "real \<Rightarrow> int" where
  "round_even y =
     (let f = \<lfloor>y\<rfloor>; d = y - of_int f
      in if d < 1 / 2 then f
         else if d > 1 / 2 then f + 1
         else if even f then f else f + 1)"

fun f32_exponent_from :: "nat \<Rightarrow> real \<Rightarrow> int" where
  "f32_exponent_from 0 q = - 126"
| "f32_exponent_from (Suc n) q =
     (if 2 powi (int (Suc n) - 126) \<le> \<bar>q\<bar> then int (Suc n) - 126
      else f32_exponent_from n q)"

definition f32_exponent :: "real \<Rightarrow> int" where
  "f32_exponent q = f32_exponent_from 253 q"

definition float32 :: "real \<Rightarrow> real" where
  "float32 q =
     (let u = 2 powi (f32_exponent q - 23)
      in of_int (round_even (q / u)) * u)"

text \<open>
  \<open>image_array / 255.0\<close> on an array of 32-bit floats: every sample is divided and the
  quotient rounded to 32-bit floating point.
\<close>

fun nd_div :: "ndarray \<Rightarrow> real \<Rightarrow> ndarray" where
  "nd_div (Scalar x) d = Scalar (float32 (x / d))"
| "nd_div (Arr xs) d = Arr (map (\<lambda>a. nd_div a d) xs)"

definition expand_dims0 :: "ndarray \<Rightarrow> ndarray" where
  "expand_dims0 a = Arr [a]"

text \<open>
  \<open>np.argmax\<close> and \<open>np.max\<close> of a vector: a scan from the left that replaces the
  best entry only by a strictly greater one; both raise \<open>ValueError\<close> on an empty vector.
\<close>

fun argmax_scan :: "nat \<Rightarrow> real \<Rightarrow> nat \<Rightarrow> real list \<Rightarrow> nat" where
  "argmax_scan bi bv i [] = bi"
| "argmax_scan bi bv i (x # xs) =
     (if x > bv then argmax_scan i x (Suc i) xs else argmax_scan bi bv (Suc i) xs)"

definition np_argmax :: "real list \<Rightarrow> exn + nat" where
  "np_argmax v =
     (case v of
        [] \<Rightarrow> Inl (Raised ValueError ''attempt to get argmax of an empty sequence'')
      | x # xs \<Rightarrow> Inr (argmax_scan 0 x 1 xs))"

definition np_max :: "real list \<Rightarrow> exn + real" where
  "np_max v =
     (case v of
        [] \<Rightarrow> Inl (Raised ValueError ''zero-size array to reduction operation maximum which has no identity'')
      | x # xs \<Rightarrow> Inr (foldl max x xs))"

definition getitem :: "'a list \<Rightarrow> nat \<Rightarrow> exn + 'a" where
  "getitem xs i =
     (if i < length xs then Inr (xs ! i) else Inl (Raised IndexError ''index out of range''))"

subsection \<open>Construction\<close>

definition get_model_path :: "'img ext \<Rightarrow> settings \<Rightarrow> string" where
  "get_model_path ext st =
     (if take 1 (MODEL_PATH st) = ''/'' then MODEL_PATH st
      else os_path_abspath ext (MODEL_PATH st))"

definition load_model :: "'img ext \<Rightarrow> settings \<Rightarrow> processor \<Rightarrow> processor" where
  "load_model ext st self =
     (case keras_load_model ext (get_model_path ext st) of
        Inr m \<Rightarrow> self\<lparr>model := Some m, model_loaded := True\<rparr>
      | Inl e \<Rightarrow> self\<lparr>model_loaded := False\<rparr>)"

definition init :: "'img ext \<Rightarrow> settings \<Rightarrow> processor" where
  "init ext st = load_model ext st \<lparr>model = None, model_loaded = False\<rparr>"

subsection \<open>The stages\<close>

definition extract_image_info ::
  "'img ext \<Rightarrow> processor \<Rightarrow> 'img \<Rightarrow> int \<Rightarrow> ImageInfo \<times> processor" where
  "extract_image_info ext self img file_size =
     (let (w, h) = Image_size ext img;
          chans = (if Image_getbands ext img \<noteq> []
                   then int (length (Image_getbands ext img)) else 0);
          format_name = Image_format ext img
      in (\<lparr>width = w, height = h, channels = chans, format = format_name\<rparr>, self))"

definition calculate_image_stats ::
  "'img ext \<Rightarrow> processor \<Rightarrow> ndarray \<Rightarrow> int \<Rightarrow> ImageStats \<times> processor" where
  "calculate_image_stats ext self image_array file_size =
     (\<lparr>mean_intensity = np_mean ext image_array,
       std_intensity = np_std ext image_array,
       shape = nd_shape image_array,
       size_bytes = Some file_size\<rparr>, self)"

definition preprocess_image ::
  "'img ext \<Rightarrow> settings \<Rightarrow> processor \<Rightarrow> 'img \<Rightarrow> (exn + ndarray) \<times> processor" where
  "preprocess_image ext st self img =
     (case (if Image_mode ext img \<noteq> ''L'' then Image_convert ext img ''L''
            else Inr img) of
        Inl e \<Rightarrow> (Inl e, self)
      | Inr image1 \<Rightarrow>
          (let target_size = get_model_input_size st
           in case Image_resize ext image1 target_size of
                Inl e \<Rightarrow> (Inl e, self)
              | Inr image2 \<Rightarrow>
                  (case np_array_float32 ext image2 of
                     Inl e \<Rightarrow> (Inl e, self)
                   | Inr image_array \<Rightarrow>
                       (Inr (expand_dims0 (nd_div image_array 255)), self))))"

definition class_labels :: "string list" where
  "class_labels = [''Benign Case'', ''Malignant Case'', ''Normal Case'']"

text \<open>
  The body of \<open>predict\<close>'s \<open>try\<close>; the handler logs and raises the same exception
  again, so \<open>predict\<close> returns what this body returns.
\<close>

definition predict_body :: "'img ext \<Rightarrow> processor \<Rightarrow> ndarray \<Rightarrow> exn + PredictionResult" where
  "predict_body ext self preprocessed_image =
     (if \<not> model_loaded self then Inl (Raised RuntimeError ''Model not loaded'')
      else case model self of
        None \<Rightarrow> Inl (Raised AttributeError ''NoneType object has no attribute predict'')
      | Some m \<Rightarrow>
          (case m preprocessed_image of
             Inl e \<Rightarrow> Inl e
           | Inr predictions \<Rightarrow>
               (case getitem predictions 0 of
                  Inl e \<Rightarrow> Inl e
                | Inr class_probs \<Rightarrow>
                    (case np_argmax class_probs of
                       Inl e \<Rightarrow> Inl e
                     | Inr predicted_class_idx \<Rightarrow>
                         (case np_max class_probs of
                            Inl e \<Rightarrow> Inl e
                          | Inr conf \<Rightarrow>
                              (case getitem class_labels predicted_class_idx of
                                 Inl e \<Rightarrow> Inl e
                               | Inr prediction_class \<Rightarrow>
                                   (case (getitem class_probs 0, getitem class_probs 1,
                                          getitem class_probs 2) of
                                      (Inr p0, Inr p1, Inr p2) \<Rightarrow>
                                        Inr \<lparr>prediction = prediction_class,
                                             confidence = conf,
                                             probabilities =
                                               [(''Benign Case'', p0),
                                                (''Malignant Case'', p1),
                                                (''Normal Case'', p2)],
                                             processing_time_ms =
                                               (time_end ext - time_start ext) * 1000\<rparr>
                                    | (Inl e, _, _) \<Rightarrow> Inl e
                                    | (_, Inl e, _) \<Rightarrow> Inl e
                                    | (_, _, Inl e) \<Rightarrow> Inl e)))))))"

definition predict ::
  "'img ext \<Rightarrow> processor \<Rightarrow> ndarray \<Rightarrow> (exn + PredictionResult) \<times> processor" where
  "predict ext self preprocessed_image = (predict_body ext self preprocessed_image, self)"


text \<open>
  \<open>process_image\<close>: the validation is outside the \<open>try\<close>; the handler of the
  \<open>try\<close> logs and raises the same exception again.
\<close>

definition process_image ::
  "'img ext \<Rightarrow> settings \<Rightarrow> processor \<Rightarrow> byte list \<Rightarrow> string \<Rightarrow> string option
     \<Rightarrow> (exn + PredictionResponse) \<times> processor" where
  "process_image ext st self image_data fname content_type =
     (let file_size = int (length image_data)
      in case validate_image st self content_type file_size of
           (False, self1) \<Rightarrow> (Inl (Raised ValueError ''Invalid image file''), self1)
         | (True, self1) \<Rightarrow>
             (case Image_open ext image_data of
                Inl e \<Rightarrow> (Inl e, self1)
              | Inr img \<Rightarrow>
                  (case extract_image_info ext self1 img file_size of
                     (info, self2) \<Rightarrow>
                       (case np_array ext img of
                          Inl e \<Rightarrow> (Inl e, self2)
                        | Inr image_array \<Rightarrow>
                            (case calculate_image_stats ext self2 image_array file_size of
                               (stats, self3) \<Rightarrow>
                                 (case preprocess_image ext st self3 img of
                                    (Inl e, self4) \<Rightarrow> (Inl e, self4)
                                  | (Inr preprocessed, self4) \<Rightarrow>
                                      (case predict ext self4 preprocessed of
                                         (Inl e, self5) \<Rightarrow> (Inl e, self5)
                                       | (Inr prediction_results, self5) \<Rightarrow>
                                           (case new_PredictionResult prediction_results of
                                              Inl e \<Rightarrow> (Inl e, self5)
                                            | Inr pr \<Rightarrow>
                                                (Inr \<lparr>status = ''success'',
                                                      filename = fname,
                                                      image_info = info,
                                                      image_stats = stats,
                                                      prediction_result = pr,
                                                      message = ''Image processed successfully'',
                                                      timestamp = utcnow_isoformat ext\<rparr>,
                                                 self5)))))))))"

section \<open>The endpoint (app/api/v1/endpoints.py, app/main.py)\<close>

record UploadFile =
  upload_filename :: "string option"
  upload_content_type :: "string option"
  upload_data :: "byte list"

fun str_exn :: "exn \<Rightarrow> string" where
  "str_exn (Raised c m) = m"
| "str_exn (HTTPException code detail) = detail"

text \<open>
  The body of the \<open>try\<close> of \<open>predict_image\<close>: read the file, raise
  \<open>HTTPException(400)\<close> on an empty one, otherwise call the processor.
\<close>

definition predict_image_try ::
  "'img ext \<Rightarrow> settings \<Rightarrow> processor \<Rightarrow> string \<Rightarrow> string option \<Rightarrow> byte list
     \<Rightarrow> (exn + PredictionResponse) \<times> processor" where
  "predict_image_try ext st image_processor fname content_type image_data =
     (if image_data = [] then (Inl (HTTPException 400 ''Empty file provided''), image_processor)
      else process_image ext st image_processor image_data fname content_type)"

text \<open>
  \<open>predict_image\<close>: the two guards before the \<open>try\<close>, then the \<open>try\<close> with its three
  handlers in the order of the source: \<open>except ValueError\<close>, \<open>except RuntimeError\<close>,
  \<open>except Exception\<close>.
\<close>

definition predict_image ::
  "'img ext \<Rightarrow> settings \<Rightarrow> processor \<Rightarrow> UploadFile
     \<Rightarrow> (exn + PredictionResponse) \<times> processor" where
  "predict_image ext st image_processor file =
     (case upload_filename file of
        None \<Rightarrow> (Inl (HTTPException 400 ''No file provided''), image_processor)
      | Some fname \<Rightarrow>
          if fname = [] then (Inl (HTTPException 400 ''No file provided''), image_processor)
          else if (case upload_content_type file of None \<Rightarrow> True | Some c \<Rightarrow> c = [])
          then (Inl (HTTPException 400 ''Unable to determine file type''), image_processor)
          else
            (case predict_image_try ext st image_processor fname (upload_content_type file)
                    (upload_data file) of
               (Inr result, ip) \<Rightarrow> (Inr result, ip)
             | (Inl e, ip) \<Rightarrow>
                 if isinstance e ValueError
                 then (Inl (HTTPException 400 (''Invalid image file: '' @ str_exn e)), ip)
                 else if isinstance e RuntimeError
                 then (Inl (HTTPException 503 (''Model service unavailable: '' @ str_exn e)), ip)
                 else (Inl (HTTPException 500
                              ''Internal server error during image processing''), ip)))"

text \<open>
  The status code of the response: the exception handlers of app/main.py answer an
  \<open>HTTPException\<close> with its own status code and any other exception with 500.
\<close>

fun status_code :: "exn + PredictionResponse \<Rightarrow> int" where
  "status_code (Inr r) = 200"
| "status_code (Inl (HTTPException code detail)) = code"
| "status_code (Inl (Raised c m)) = 500"

section \<open>Stand-ins for the libraries\<close>

text \<open>
  A small instance of the library interface, for evaluating the service on concrete
  inputs: an image is a grid of grey samples (rows of numbers between 0 and 255), always
  of mode L. A file is the byte 0x47 followed by the samples of a one-row image.
  Resizing takes the nearest sample; the model answers every tensor with the scores
  0.7, 0.2, 0.1.
\<close>

definition grid_open :: "byte list \<Rightarrow> exn + real list list" where
  "grid_open bs =
     (case bs of
        [] \<Rightarrow> Inl (Raised UnidentifiedImageError ''cannot identify image file'')
      | b # px \<Rightarrow>
          if b = 0x47 \<and> px \<noteq> [] then Inr [map (\<lambda>x. real (unat x)) px]
          else Inl (Raised UnidentifiedImageError ''cannot identify image file''))"

definition grid_size :: "real list list \<Rightarrow> int \<times> int" where
  "grid_size g = (case g of [] \<Rightarrow> (0, 0) | r # rs \<Rightarrow> (int (length r), int (length g)))"

definition grid_at :: "real list list \<Rightarrow> nat \<Rightarrow> nat \<Rightarrow> real" where
  "grid_at g y x =
     (case drop y g of
        [] \<Rightarrow> 0
      | r # rs \<Rightarrow> (case drop x r of [] \<Rightarrow> 0 | p # ps \<Rightarrow> p))"

definition grid_resize :: "real list list \<Rightarrow> int \<times> int \<Rightarrow> exn + real list list" where
  "grid_resize g target =
     (case target of
        (w, h) \<Rightarrow>
          if w \<le> 0 \<or> h \<le> 0 then Inl (Raised ValueError ''height and width must be > 0'')
          else (case grid_size g of
                  (gw, gh) \<Rightarrow>
                    Inr (map (\<lambda>y. map (\<lambda>x. grid_at g (y * nat gh div nat h)
                                                (x * nat gw div nat w))
                                     [0..<nat w])
                             [0..<nat h])))"

definition grid_array :: "real list list \<Rightarrow> exn + ndarray" where
  "grid_array g = Inr (Arr (map (\<lambda>r. Arr (map Scalar r)) g))"

definition stub_model :: keras_model where
  "stub_model t = Inr [[7 / 10, 2 / 10, 1 / 10]]"

definition grid_ext :: "real list list ext" where
  "grid_ext =
     \<lparr> Image_open = grid_open,
       Image_size = grid_size,
       Image_mode = (\<lambda>g. ''L''),
       Image_format = (\<lambda>g. None),
       Image_getbands = (\<lambda>g. [''L'']),
       Image_convert = (\<lambda>g m. Inr g),
       Image_resize = grid_resize,
       np_array = grid_array,
       np_array_float32 = grid_array,
       np_mean = (\<lambda>a. sum_list (nd_samples a) / real (length (nd_samples a))),
       np_std = (\<lambda>a. 0),
       keras_load_model = (\<lambda>path. Inr stub_model),
       os_path_abspath = (\<lambda>path. ''/app/'' @ path),
       time_start = 0,
       time_end = 1 / 100,
       utcnow_isoformat = ''2024-01-01T00:00:00'' \<rparr>"

text \<open>
  A second instance with colour: an image is a mode (\<open>RGB\<close> or \<open>L\<close>) and rows of
  pixels, a pixel being the list of its band samples. A file is the byte 0x43 followed
  by the red, green and blue bytes of the pixels of a one-row image. Conversion to mode
  L weighs the bands as Pillow does (ITU-R 601-2 luma in 16-bit fixed point).
\<close>

type_synonym raster = "string \<times> nat list list list"

fun rgb_pixels :: "nat list \<Rightarrow> nat list list option" where
  "rgb_pixels [] = Some []"
| "rgb_pixels (r # g # b # rest) = map_option ((#) [r, g, b]) (rgb_pixels rest)"
| "rgb_pixels bs = None"

definition raster_open :: "byte list \<Rightarrow> exn + raster" where
  "raster_open bs =
     (case bs of
        [] \<Rightarrow> Inl (Raised UnidentifiedImageError ''cannot identify image file'')
      | m # px \<Rightarrow>
          if m = 0x43 \<and> px \<noteq> []
          then (case rgb_pixels (map unat px) of
                  Some row \<Rightarrow> Inr (''RGB'', [row])
                | None \<Rightarrow> Inl (Raised UnidentifiedImageError ''cannot identify image file''))
          else Inl (Raised UnidentifiedImageError ''cannot identify image file''))"

definition luma :: "nat list \<Rightarrow> nat list" where
  "luma p =
     (case p of
        [r, g, b] \<Rightarrow> [(r * 19595 + g * 38470 + b * 7471 + 32768) div 65536]
      | _ \<Rightarrow> p)"

definition raster_convert :: "raster \<Rightarrow> string \<Rightarrow> exn + raster" where
  "raster_convert im m =
     (if m = ''L'' then Inr (''L'', map (map luma) (snd im))
      else Inl (Raised ValueError ''conversion not supported''))"

definition raster_size :: "raster \<Rightarrow> int \<times> int" where
  "raster_size im =
     (case snd im of [] \<Rightarrow> (0, 0) | r # rs \<Rightarrow> (int (length r), int (length (snd im))))"

definition raster_at :: "nat list list list \<Rightarrow> nat \<Rightarrow> nat \<Rightarrow> nat list" where
  "raster_at px y x =
     (case drop y px of
        [] \<Rightarrow> []
      | r # rs \<Rightarrow> (case drop x r of [] \<Rightarrow> [] | p # ps \<Rightarrow> p))"

definition raster_resize :: "raster \<Rightarrow> int \<times> int \<Rightarrow> exn + raster" where
  "raster_resize im target =
     (case target of
        (w, h) \<Rightarrow>
          if w \<le> 0 \<or> h \<le> 0 then Inl (Raised ValueError ''height and width must be > 0'')
          else (case raster_size im of
                  (gw, gh) \<Rightarrow>
                    Inr (fst im,
                         map (\<lambda>y. map (\<lambda>x. raster_at (snd im) (y * nat gh div nat h)
                                                (x * nat gw div nat w))
                                     [0..<nat w])
                             [0..<nat h])))"

definition raster_array :: "raster \<Rightarrow> exn + ndarray" where
  "raster_array im =
     Inr (Arr (map (\<lambda>row. Arr (map (\<lambda>p. case p of
                                            [v] \<Rightarrow> Scalar (real v)
                                          | _ \<Rightarrow> Arr (map (\<lambda>v. Scalar (real v)) p))
                                   row))
               (snd im)))"

definition raster_ext :: "raster ext" where
  "raster_ext =
     \<lparr> Image_open = raster_open,
       Image_size = raster_size,
       Image_mode = fst,
       Image_format = (\<lambda>im. None),
       Image_getbands = (\<lambda>im. if fst im = ''L'' then [''L''] else [''R'', ''G'', ''B'']),
       Image_convert = raster_convert,
       Image_resize = raster_resize,
       np_array = raster_array,
       np_array_float32 = raster_array,
       np_mean = (\<lambda>a. sum_list (nd_samples a) / real (length (nd_samples a))),
       np_std = (\<lambda>a. 0),
       keras_load_model = (\<lambda>path. Inr stub_model),
       os_path_abspath = (\<lambda>path. ''/app/'' @ path),
       time_start = 0,
       time_end = 1 / 100,
       utcnow_isoformat = ''2024-01-01T00:00:00'' \<rparr>"

definition unloaded_processor :: processor where
  "unloaded_processor = \<lparr>model = None, model_loaded = False\<rparr>"

definition stub_processor :: processor where
  "stub_processor = \<lparr>model = Some stub_model, model_loaded = True\<rparr>"

definition small_settings :: settings where
  "small_settings = default_settings\<lparr>MODEL_INPUT_SIZE := ''2,2''\<rparr>"


section \<open>Facts about the configuration, the arrays and the stages\<close>

lemma default_allowed_image_types:
  "get_allowed_image_types default_settings =
     [''image/jpeg'', ''image/png'', ''image/tiff'', ''image/bmp'']"
  by (simp add: get_allowed_image_types_def default_settings_def strip_def is_space_def)

lemma default_max_file_size: "MAX_FILE_SIZE default_settings = 52428800"
  by (simp add: default_settings_def)

lemma default_model_input_size: "get_model_input_size default_settings = (224, 224)"
  by (simp add: get_model_input_size_def default_settings_def strip_def is_space_def
      py_int_def py_digits_def is_digit_def digit_val_def)

lemma nd_shape_div: "nd_shape (nd_div a d) = nd_shape a"
proof (induction a d rule: nd_div.induct)
  case (1 x d)
  then show ?case by simp
next
  case (2 xs d)
  then show ?case by (cases xs) simp_all
qed

lemma round_even_error: "\<bar>of_int (round_even y) - y\<bar> \<le> 1 / 2"
proof -
  have "of_int \<lfloor>y\<rfloor> \<le> y" "y < of_int \<lfloor>y\<rfloor> + 1" by linarith+
  then show ?thesis by (auto simp: round_even_def Let_def)
qed

lemma round_even_nonneg: "0 \<le> y \<Longrightarrow> 0 \<le> round_even y"
proof -
  assume "0 \<le> y"
  then have "0 \<le> \<lfloor>y\<rfloor>" by simp
  then show ?thesis by (auto simp: round_even_def Let_def)
qed

lemma round_even_le: "y \<le> of_int N \<Longrightarrow> round_even y \<le> N"
proof -
  assume le: "y \<le> of_int N"
  have "\<lfloor>y\<rfloor> \<le> \<lfloor>of_int N :: real\<rfloor>" using le by (rule floor_mono)
  then have fl: "\<lfloor>y\<rfloor> \<le> N" by simp
  show ?thesis
  proof (cases "\<lfloor>y\<rfloor> = N")
    case True
    then have "y - of_int \<lfloor>y\<rfloor> \<le> 0" using le by simp
    then show ?thesis using True by (simp add: round_even_def Let_def)
  next
    case False
    then have "\<lfloor>y\<rfloor> + 1 \<le> N" using fl by simp
    then show ?thesis using fl by (auto simp: round_even_def Let_def)
  qed
qed

lemma round_even_of_int: "round_even (of_int k) = k"
  by (simp add: round_even_def)

lemma f32_exponent_from_range:
  "- 126 \<le> f32_exponent_from n q \<and> f32_exponent_from n q \<le> int n - 126"
  by (induction n) auto

lemma f32_exponent_from_below:
  "f32_exponent_from n q = - 126 \<or> 2 powi f32_exponent_from n q \<le> \<bar>q\<bar>"
  by (induction n) auto

lemma f32_exponent_from_eq:
  assumes "- 126 \<le> e" and "e \<le> int n - 126"
    and "2 powi e \<le> \<bar>q\<bar>" and "\<bar>q\<bar> < 2 powi (e + 1)"
  shows "f32_exponent_from n q = e"
  using assms
proof (induction n)
  case 0
  then show ?case by simp
next
  case (Suc n)
  show ?case
  proof (cases "2 powi (int (Suc n) - 126) \<le> \<bar>q\<bar>")
    case True
    then have "(2::real) powi (int (Suc n) - 126) < 2 powi (e + 1)"
      using Suc.prems(4) by linarith
    then have "int (Suc n) - 126 < e + 1"
      by (smt (verit) power_int_increasing)
    with Suc.prems(2) have "e = int (Suc n) - 126" by linarith
    with True show ?thesis by simp
  next
    case False
    then have "\<bar>q\<bar> < 2 powi (int (Suc n) - 126)" by simp
    with Suc.prems(3) have "(2::real) powi e < 2 powi (int (Suc n) - 126)" by linarith
    then have "e < int (Suc n) - 126"
      by (smt (verit) power_int_increasing)
    then have "e \<le> int n - 126" by simp
    from Suc.IH [OF Suc.prems(1) this Suc.prems(3) Suc.prems(4)] False show ?thesis by simp
  qed
qed

lemma f32_exponent_eq:
  assumes "- 126 \<le> e" and "e \<le> 127"
    and "2 powi e \<le> \<bar>q\<bar>" and "\<bar>q\<bar> < 2 powi (e + 1)"
  shows "f32_exponent q = e"
  unfolding f32_exponent_def using assms by (intro f32_exponent_from_eq) auto

lemma f32_exponent_subnormal:
  assumes "\<bar>q\<bar> < 2 powi (- 126)"
  shows "f32_exponent q = - 126"
proof -
  have "f32_exponent_from n q = - 126" for n
  proof (induction n)
    case 0
    then show ?case by simp
  next
    case (Suc n)
    have "(2::real) powi (- 126) \<le> 2 powi (int (Suc n) - 126)"
      by (intro power_int_increasing) auto
    with assms have "\<not> 2 powi (int (Suc n) - 126) \<le> \<bar>q\<bar>" by linarith
    with Suc show ?case by simp
  qed
  then show ?thesis by (simp add: f32_exponent_def)
qed

lemma float32_0: "float32 0 = 0"
  by (simp add: float32_def round_even_def)

lemma float32_1: "float32 1 = 1"
proof -
  have e: "f32_exponent 1 = 0" by (rule f32_exponent_eq) simp_all
  have "(1::real) / 2 powi (- 23) = of_int (2 ^ 23)"
    by (simp add: power_int_minus)
  then have "round_even (1 / 2 powi (- 23)) = 2 ^ 23" by (simp only: round_even_of_int)
  then show ?thesis by (simp add: float32_def e power_int_minus)
qed

lemma float32_unit_interval:
  assumes "0 \<le> q" and "q \<le> 1"
  shows "0 \<le> float32 q \<and> float32 q \<le> 1 \<and> \<bar>float32 q - q\<bar> \<le> 1 / 2 ^ 25"
proof (cases "q = 1")
  case True
  then show ?thesis by (simp add: float32_1)
next
  case False
  with assms have lt: "q < 1" by simp
  define e where "e = f32_exponent q"
  define u :: real where "u = 2 powi (e - 23)"
  have upos: "0 < u" by (simp add: u_def)
  have e_low: "e = - 126 \<or> 2 powi e \<le> \<bar>q\<bar>"
    unfolding e_def f32_exponent_def by (rule f32_exponent_from_below)
  have e_neg: "e \<le> - 1"
  proof (rule ccontr)
    assume "\<not> e \<le> - 1"
    then have e0: "0 \<le> e" by simp
    then have "2 powi e \<le> \<bar>q\<bar>" using e_low by auto
    moreover have "(1::real) \<le> 2 powi e" using e0 by simp
    ultimately show False using lt assms by simp
  qed
  have val: "float32 q = of_int (round_even (q / u)) * u"
    by (simp add: float32_def e_def u_def Let_def)
  have nonneg: "0 \<le> float32 q"
    using round_even_nonneg [of "q / u"] assms upos by (simp add: val)
  have inv: "1 / u = of_int (2 ^ nat (23 - e))"
    using e_neg by (simp add: u_def power_int_def field_simps)
  have "q / u \<le> 1 / u" using assms upos by (simp add: divide_right_mono)
  then have "round_even (q / u) \<le> 2 ^ nat (23 - e)"
    using inv by (intro round_even_le) simp
  then have "of_int (round_even (q / u)) * u \<le> of_int (2 ^ nat (23 - e)) * u"
    using upos by (intro mult_right_mono) (simp_all del: of_int_power)
  also have "\<dots> = 1" using inv upos by (simp add: field_simps)
  finally have le1: "float32 q \<le> 1" by (simp add: val)
  have "u \<le> 2 powi (- 24)"
    unfolding u_def using e_neg by (intro power_int_increasing) auto
  then have usmall: "u \<le> 1 / 2 ^ 24" by (simp add: power_int_minus_divide)
  have "float32 q - q = (of_int (round_even (q / u)) - q / u) * u"
    using upos by (simp add: val left_diff_distrib)
  then have "\<bar>float32 q - q\<bar> = \<bar>of_int (round_even (q / u)) - q / u\<bar> * u"
    using upos by (simp add: abs_mult)
  also have "\<dots> \<le> (1 / 2) * u"
    using round_even_error [of "q / u"] upos by (intro mult_right_mono) simp_all
  also have "\<dots> \<le> 1 / 2 ^ 25" using usmall by simp
  finally show ?thesis using nonneg le1 by simp
qed

lemma float32_128: "float32 (128 / 255) = 8421505 / 16777216"
proof -
  have e: "f32_exponent (128 / 255) = - 1"
    by (rule f32_exponent_eq) (simp_all add: power_int_minus)
  show ?thesis
    by (simp add: float32_def e power_int_minus round_even_def Let_def)
qed

lemma nd_samples_div: "nd_samples (nd_div a d) = map (\<lambda>x. float32 (x / d)) (nd_samples a)"
  by (induction a d rule: nd_div.induct) (simp_all add: map_concat comp_def cong: map_cong)

lemma validate_image_self: "snd (validate_image st self c n) = self"
  by (simp add: validate_image_def)

lemma preprocess_image_self: "snd (preprocess_image ext st self img) = self"
  by (simp add: preprocess_image_def Let_def split: sum.splits)

lemma predict_self: "snd (predict ext self t) = self"
  by (simp add: predict_def)

lemma process_image_self: "snd (process_image ext st self data fname c) = self"
proof -
  obtain b where v: "validate_image st self c (int (length data)) = (b, self)"
    using validate_image_self [of st self c "int (length data)"]
    by (cases "validate_image st self c (int (length data))") simp
  show ?thesis
  proof (cases b)
    case False
    with v show ?thesis by (simp add: process_image_def)
  next
    case True
    show ?thesis
    proof (cases "Image_open ext data")
      case (Inl e)
      with v True show ?thesis by (simp add: process_image_def)
    next
      case (Inr img)
      obtain p where p: "preprocess_image ext st self img = (p, self)"
        using preprocess_image_self [of ext st self img]
        by (cases "preprocess_image ext st self img") simp
      from v True Inr p show ?thesis
        by (simp add: process_image_def extract_image_info_def calculate_image_stats_def
            predict_def split: sum.splits prod.splits)
    qed
  qed
qed

lemma predict_image_self: "snd (predict_image ext st ip file) = ip"
proof -
  have "snd (predict_image_try ext st ip fname c data) = ip" for fname c data
    by (simp add: predict_image_try_def process_image_self)
  then have "\<And>fname c data r ip'. predict_image_try ext st ip fname c data = (r, ip') \<Longrightarrow> ip' = ip"
    by (metis snd_conv)
  then show ?thesis
    by (auto simp: predict_image_def split: option.splits sum.splits prod.splits)
qed


lemma argmax_scan_spec:
  assumes "length pre = i" and "bi < i" and "pre ! bi = bv"
    and "\<forall>j<i. pre ! j \<le> bv" and "\<forall>j<bi. pre ! j < bv"
  shows "argmax_scan bi bv i xs < length (pre @ xs)
       \<and> (\<forall>j<length (pre @ xs). (pre @ xs) ! j \<le> (pre @ xs) ! argmax_scan bi bv i xs)
       \<and> (\<forall>j<argmax_scan bi bv i xs. (pre @ xs) ! j < (pre @ xs) ! argmax_scan bi bv i xs)"
  using assms
proof (induction xs arbitrary: bi bv i pre)
  case Nil
  then show ?case by auto
next
  case (Cons x xs)
  let ?pre = "pre @ [x]"
  have len: "length ?pre = Suc i" using Cons.prems by simp
  show ?case
  proof (cases "x > bv")
    case True
    have a: "i < Suc i" by simp
    have b: "?pre ! i = x" using Cons.prems by (simp add: nth_append)
    have below: "pre ! j \<le> bv" if "j < i" for j
      using Cons.prems(4) that by blast
    have c: "\<forall>j<Suc i. ?pre ! j \<le> x"
    proof (intro allI impI)
      fix j assume "j < Suc i"
      then consider "j < i" | "j = i" by linarith
      then show "?pre ! j \<le> x"
      proof cases
        case 1
        then have "pre ! j \<le> bv" by (rule below)
        with 1 True Cons.prems(1) show ?thesis by (simp add: nth_append)
      next
        case 2
        with Cons.prems(1) show ?thesis by (simp add: nth_append)
      qed
    qed
    have d: "\<forall>j<i. ?pre ! j < x"
    proof (intro allI impI)
      fix j assume j: "j < i"
      then have "pre ! j \<le> bv" by (rule below)
      with j True Cons.prems(1) show "?pre ! j < x" by (simp add: nth_append)
    qed
    from Cons.IH [OF len a b c d] True show ?thesis by simp
  next
    case False
    have a: "bi < Suc i" using Cons.prems by simp
    have b: "?pre ! bi = bv" using Cons.prems by (simp add: nth_append)
    have c: "\<forall>j<Suc i. ?pre ! j \<le> bv"
      using Cons.prems False by (auto simp: nth_append less_Suc_eq)
    have d: "\<forall>j<bi. ?pre ! j < bv"
      using Cons.prems by (auto simp: nth_append)
    from Cons.IH [OF len a b c d] False show ?thesis by simp
  qed
qed

lemma np_argmax_spec:
  assumes "v \<noteq> []"
  shows "\<exists>i. np_argmax v = Inr i \<and> i < length v
           \<and> (\<forall>j<length v. v ! j \<le> v ! i) \<and> (\<forall>j<i. v ! j < v ! i)"
proof -
  obtain x xs where v: "v = x # xs" using assms by (cases v) auto
  have "argmax_scan 0 x 1 xs < length ([x] @ xs)
       \<and> (\<forall>j<length ([x] @ xs). ([x] @ xs) ! j \<le> ([x] @ xs) ! argmax_scan 0 x 1 xs)
       \<and> (\<forall>j<argmax_scan 0 x 1 xs. ([x] @ xs) ! j < ([x] @ xs) ! argmax_scan 0 x 1 xs)"
    by (rule argmax_scan_spec) auto
  then show ?thesis by (simp add: v np_argmax_def)
qed

lemma foldl_max_ge: "foldl max (x::real) xs \<ge> x \<and> (\<forall>y \<in> set xs. y \<le> foldl max x xs)"
proof (induction xs arbitrary: x)
  case Nil
  then show ?case by simp
next
  case (Cons a xs)
  have "max x a \<le> foldl max (max x a) xs" using Cons.IH by blast
  then show ?case using Cons.IH [of "max x a"] by auto
qed

lemma foldl_max_mem: "foldl max (x::real) xs \<in> set (x # xs)"
proof (induction xs arbitrary: x)
  case Nil
  then show ?case by simp
next
  case (Cons a xs)
  have step: "foldl max (max x a) xs \<in> set (max x a # xs)" by (rule Cons.IH)
  have "max x a = x \<or> max x a = a" by (simp add: max_def)
  then show ?case
  proof
    assume "max x a = x"
    with step show ?thesis by auto
  next
    assume "max x a = a"
    with step show ?thesis by auto
  qed
qed

lemma np_max_spec:
  assumes "v \<noteq> []" and "i < length v" and "\<forall>j<length v. v ! j \<le> v ! i"
  shows "np_max v = Inr (v ! i)"
proof -
  obtain x xs where v: "v = x # xs" using assms by (cases v) auto
  let ?m = "foldl max x xs"
  have "?m \<in> set v" using foldl_max_mem [of x xs] v by simp
  then obtain k where k: "k < length v" "v ! k = ?m" by (auto simp: in_set_conv_nth)
  have "v ! i \<in> set v" using assms by simp
  then have "v ! i \<le> ?m" using foldl_max_ge [of x xs] v by auto
  moreover have "?m \<le> v ! i" using k assms by metis
  ultimately show ?thesis by (simp add: v np_max_def)
qed


lemma predict_body_three:
  assumes "model_loaded self" and "model self = Some m" and "m t = Inr (v # rest)"
    and "length v = 3"
  shows "\<exists>i<3. (\<forall>j<3. v ! j \<le> v ! i) \<and> (\<forall>j<i. v ! j < v ! i)
           \<and> predict_body ext self t =
               Inr \<lparr>prediction = class_labels ! i,
                    confidence = v ! i,
                    probabilities = [(''Benign Case'', v ! 0), (''Malignant Case'', v ! 1),
                                     (''Normal Case'', v ! 2)],
                    processing_time_ms = (time_end ext - time_start ext) * 1000\<rparr>"
proof -
  have ne: "v \<noteq> []" using assms(4) by auto
  from np_argmax_spec [OF ne] obtain i where i: "np_argmax v = Inr i" "i < length v"
    "\<forall>j<length v. v ! j \<le> v ! i" "\<forall>j<i. v ! j < v ! i" by blast
  have mx: "np_max v = Inr (v ! i)" using ne i(2) i(3) by (rule np_max_spec)
  have lab: "getitem class_labels i = Inr (class_labels ! i)"
    using i(2) assms(4) by (simp add: getitem_def class_labels_def)
  have "predict_body ext self t =
               Inr \<lparr>prediction = class_labels ! i,
                    confidence = v ! i,
                    probabilities = [(''Benign Case'', v ! 0), (''Malignant Case'', v ! 1),
                                     (''Normal Case'', v ! 2)],
                    processing_time_ms = (time_end ext - time_start ext) * 1000\<rparr>"
    using assms i(1) mx lab by (simp add: predict_body_def getitem_def)
  with i assms(4) show ?thesis by auto
qed

lemma process_image_decoded:
  assumes "fst (validate_image st self ct (int (length data)))"
    and "Image_open ext data = Inr img"
    and "np_array ext img = Inr arr"
    and "fst (preprocess_image ext st self img) = Inr t"
  shows "process_image ext st self data fname ct =
     (case predict_body ext self t of
        Inl e \<Rightarrow> (Inl e, self)
      | Inr res \<Rightarrow>
          (case new_PredictionResult res of
             Inl e \<Rightarrow> (Inl e, self)
           | Inr pr \<Rightarrow>
               (Inr \<lparr>status = ''success'', filename = fname,
                     image_info = fst (extract_image_info ext self img (int (length data))),
                     image_stats = fst (calculate_image_stats ext self arr (int (length data))),
                     prediction_result = pr,
                     message = ''Image processed successfully'',
                     timestamp = utcnow_isoformat ext\<rparr>, self)))"
proof -
  have v: "validate_image st self ct (int (length data)) = (True, self)"
    using assms(1) validate_image_self [of st self ct "int (length data)"]
    by (cases "validate_image st self ct (int (length data))") simp
  have p: "preprocess_image ext st self img = (Inr t, self)"
    using assms(4) preprocess_image_self [of ext st self img]
    by (cases "preprocess_image ext st self img") simp
  show ?thesis
    using v p assms(2,3)
    by (simp add: process_image_def extract_image_info_def calculate_image_stats_def
        predict_def split: sum.splits prod.splits)
qed

lemma process_image_open_fails:
  assumes "fst (validate_image st self ct (int (length data)))"
    and "Image_open ext data = Inl e"
  shows "process_image ext st self data fname ct = (Inl e, self)"
proof -
  have v: "validate_image st self ct (int (length data)) = (True, self)"
    using assms(1) validate_image_self [of st self ct "int (length data)"]
    by (cases "validate_image st self ct (int (length data))") simp
  show ?thesis using v assms(2) by (simp add: process_image_def)
qed

section \<open>Validation\<close>

text \<open>
  Claim C2. For every declared content type \<open>c\<close> and byte size \<open>n\<close>, \<open>validate_image\<close>
  returns true exactly when \<open>c\<close> is present, not empty, a member of the configured
  allow-list, and \<open>n\<close> does not exceed the configured maximum; it returns false in every
  other case. With the default configuration the allow-list is image/jpeg, image/png,
  image/tiff, image/bmp and the maximum is 52428800 bytes (50 MiB).
\<close>

theorem validate_image_iff:
  "fst (validate_image st self c n) =
     (\<exists>s. c = Some s \<and> s \<noteq> [] \<and> s \<in> set (get_allowed_image_types st)
          \<and> n \<le> MAX_FILE_SIZE st)
   \<and> set (get_allowed_image_types default_settings) =
       {''image/jpeg'', ''image/png'', ''image/tiff'', ''image/bmp''}
   \<and> MAX_FILE_SIZE default_settings = 52428800"
proof -
  have "fst (validate_image st self c n) =
     (\<exists>s. c = Some s \<and> s \<noteq> [] \<and> s \<in> set (get_allowed_image_types st)
          \<and> n \<le> MAX_FILE_SIZE st)"
    by (cases c) (auto simp: validate_image_def)
  then show ?thesis
    by (simp add: default_allowed_image_types default_max_file_size)
qed

theorem validate_image_iff_witness:
  "fst (validate_image default_settings unloaded_processor (Some ''image/png'') 1024)
   \<and> \<not> fst (validate_image default_settings unloaded_processor (Some ''text/plain'') 1024)
   \<and> \<not> fst (validate_image default_settings unloaded_processor (Some []) 1024)
   \<and> \<not> fst (validate_image default_settings unloaded_processor None 1024)
   \<and> \<not> fst (validate_image default_settings unloaded_processor (Some ''image/png'') 52428801)"
  using validate_image_iff [of default_settings unloaded_processor "Some ''image/png''" 1024]
    validate_image_iff [of default_settings unloaded_processor "Some ''text/plain''" 1024]
    validate_image_iff [of default_settings unloaded_processor "Some []" 1024]
    validate_image_iff [of default_settings unloaded_processor None 1024]
    validate_image_iff [of default_settings unloaded_processor "Some ''image/png''" 52428801]
  by (simp add: default_allowed_image_types default_max_file_size)

text \<open>
  Claim C9. Boundary of the size check: for every allow-listed declared content type,
  \<open>validate_image\<close> accepts a byte size equal to the configured maximum (52428800 bytes
  by default), and it rejects a size only when it is strictly greater than the maximum.
\<close>

theorem validate_image_size_boundary:
  assumes "c \<noteq> []" and "c \<in> set (get_allowed_image_types st)"
  shows "fst (validate_image st self (Some c) (MAX_FILE_SIZE st))
         \<and> (\<not> fst (validate_image st self (Some c) n)) = (n > MAX_FILE_SIZE st)"
  using assms by (auto simp: validate_image_def)

theorem validate_image_size_boundary_witness:
  "fst (validate_image default_settings unloaded_processor (Some ''image/jpeg'') 52428800)
   \<and> \<not> fst (validate_image default_settings unloaded_processor (Some ''image/jpeg'') 52428801)"
proof -
  have a: "''image/jpeg'' \<noteq> []" by simp
  have b: "''image/jpeg'' \<in> set (get_allowed_image_types default_settings)"
    by (simp add: default_allowed_image_types)
  show ?thesis
    using validate_image_size_boundary [OF a b, of unloaded_processor 52428801]
    by (simp add: default_max_file_size)
qed

section \<open>Prediction\<close>

text \<open>
  Claim C3. For every model output vector of three probabilities, the label returned by
  \<open>predict\<close> is the label at the index of the maximum probability in the order
  Benign Case, Malignant Case, Normal Case, the lowest such index when the maximum occurs
  more than once, and the confidence is that maximum; for the output 0.7, 0.2, 0.1 the
  result is Benign Case with confidence 0.7.
\<close>

theorem predict_argmax_label:
  assumes "model_loaded self" and "model self = Some m" and "m t = Inr (v # rest)"
    and "length v = 3"
  shows "\<exists>res i. predict ext self t = (Inr res, self) \<and> i < 3
           \<and> prediction res = [''Benign Case'', ''Malignant Case'', ''Normal Case''] ! i
           \<and> confidence res = v ! i
           \<and> (\<forall>j<3. v ! j \<le> v ! i) \<and> (\<forall>j<i. v ! j < v ! i)
           \<and> (v = [7 / 10, 2 / 10, 1 / 10] \<longrightarrow>
                 prediction res = ''Benign Case'' \<and> confidence res = 7 / 10)"
proof -
  from predict_body_three [OF assms, of ext] obtain i where i: "i < 3"
    "\<forall>j<3. v ! j \<le> v ! i" "\<forall>j<i. v ! j < v ! i"
    and run: "predict_body ext self t =
               Inr \<lparr>prediction = class_labels ! i,
                    confidence = v ! i,
                    probabilities = [(''Benign Case'', v ! 0), (''Malignant Case'', v ! 1),
                                     (''Normal Case'', v ! 2)],
                    processing_time_ms = (time_end ext - time_start ext) * 1000\<rparr>"
    by blast
  have first: "i = 0" if "v = [7 / 10, 2 / 10, 1 / 10]"
  proof (rule ccontr)
    assume "i \<noteq> 0"
    then have "v ! 0 < v ! i" using i(3) by simp
    moreover have "i = 1 \<or> i = 2" using i(1) \<open>i \<noteq> 0\<close> by linarith
    ultimately show False using that by auto
  qed
  show ?thesis
    using run i first
    by (intro exI [of _ "\<lparr>prediction = class_labels ! i,
                    confidence = v ! i,
                    probabilities = [(''Benign Case'', v ! 0), (''Malignant Case'', v ! 1),
                                     (''Normal Case'', v ! 2)],
                    processing_time_ms = (time_end ext - time_start ext) * 1000\<rparr>"] exI [of _ i])
      (auto simp: predict_def class_labels_def)
qed

theorem predict_argmax_label_witness:
  "\<exists>res. predict grid_ext stub_processor (Arr [Arr [Arr [Scalar 1]]]) = (Inr res, stub_processor)
      \<and> prediction res = ''Benign Case'' \<and> confidence res = 7 / 10"
proof -
  have a: "model_loaded stub_processor" by (simp add: stub_processor_def)
  have b: "model stub_processor = Some stub_model" by (simp add: stub_processor_def)
  have c: "stub_model (Arr [Arr [Arr [Scalar 1]]]) = Inr ([7 / 10, 2 / 10, 1 / 10] # [])"
    by (simp add: stub_model_def)
  have d: "length [7 / 10, 2 / 10, 1 / 10 :: real] = 3" by simp
  from predict_argmax_label [OF a b c d, of grid_ext] show ?thesis by auto
qed

section \<open>Preprocessing\<close>

lemma small_model_input_size: "get_model_input_size small_settings = (2, 2)"
  by (simp add: get_model_input_size_def small_settings_def default_settings_def strip_def
      is_space_def py_int_def py_digits_def is_digit_def digit_val_def)

lemma float32_76: "float32 (76 / 255) = 10000537 / 33554432"
proof -
  have e: "f32_exponent (76 / 255) = - 2"
    by (rule f32_exponent_eq) (simp_all add: power_int_minus)
  show ?thesis
    by (simp add: float32_def e power_int_minus round_even_def Let_def)
qed

lemma float32_149: "float32 (149 / 255) = 4901579 / 8388608"
proof -
  have e: "f32_exponent (149 / 255) = - 1"
    by (rule f32_exponent_eq) (simp_all add: power_int_minus)
  show ?thesis
    by (simp add: float32_def e power_int_minus round_even_def Let_def)
qed

lemma float32_29: "float32 (29 / 255) = 15263977 / 134217728"
proof -
  have e: "f32_exponent (29 / 255) = - 4"
    by (rule f32_exponent_eq) (simp_all add: power_int_minus)
  show ?thesis
    by (simp add: float32_def e power_int_minus round_even_def Let_def)
qed

text \<open>
  Claim C4. For every decoded image, \<open>preprocess_image\<close> converts it to mode L when
  it is not of mode L already, resizes the result to the configured target size
  (width, height), turns it into an array, divides every sample by 255 and puts a batch
  dimension of size 1 in front, in that order. When the library calls succeed and the
  array of the resized single-channel image has one sample between 0 and 255 for each of
  its height times width pixels, the tensor has shape [1, height, width]; it has one
  value for each sample of that array, in the same order, and this value is the sample
  divided by 255, up to the rounding of 32-bit floating point (at most \<open>1 / 2 ^ 25\<close>),
  and lies between 0 and 1. The default target size is 224 by 224.
\<close>

theorem preprocess_image_result:
  assumes conv: "Image_mode ext img \<noteq> ''L'' \<Longrightarrow> Image_convert ext img ''L'' = Inr g"
    and same: "Image_mode ext img = ''L'' \<Longrightarrow> g = img"
    and size: "get_model_input_size st = (w, h)"
    and res: "Image_resize ext g (w, h) = Inr r"
    and arr: "np_array_float32 ext r = Inr a"
    and shp: "nd_shape a = [nat h, nat w]"
    and rng: "\<forall>x \<in> set (nd_samples a). 0 \<le> x \<and> x \<le> 255"
  shows "\<exists>t. preprocess_image ext st self img = (Inr t, self)
           \<and> t = expand_dims0 (nd_div a 255)
           \<and> nd_shape t = [1, nat h, nat w]
           \<and> length (nd_samples t) = length (nd_samples a)
           \<and> (\<forall>k < length (nd_samples a).
                 \<bar>nd_samples t ! k - nd_samples a ! k / 255\<bar> \<le> 1 / 2 ^ 25
                 \<and> 0 \<le> nd_samples t ! k \<and> nd_samples t ! k \<le> 1)
           \<and> get_model_input_size default_settings = (224, 224)"
proof -
  let ?t = "expand_dims0 (nd_div a 255)"
  have run: "preprocess_image ext st self img = (Inr ?t, self)"
  proof (cases "Image_mode ext img = ''L''")
    case True
    with same res arr size show ?thesis by (simp add: preprocess_image_def)
  next
    case False
    with conv res arr size show ?thesis by (simp add: preprocess_image_def)
  qed
  have sh: "nd_shape ?t = [1, nat h, nat w]"
    by (simp add: expand_dims0_def nd_shape_div shp)
  have samples: "nd_samples ?t = map (\<lambda>x. float32 (x / 255)) (nd_samples a)"
    by (simp add: expand_dims0_def nd_samples_div)
  have len: "length (nd_samples ?t) = length (nd_samples a)"
    by (simp add: samples)
  have each: "\<bar>nd_samples ?t ! k - nd_samples a ! k / 255\<bar> \<le> 1 / 2 ^ 25
                 \<and> 0 \<le> nd_samples ?t ! k \<and> nd_samples ?t ! k \<le> 1"
    if k: "k < length (nd_samples a)" for k
  proof -
    have "nd_samples a ! k \<in> set (nd_samples a)" using k by simp
    then have "0 \<le> nd_samples a ! k \<and> nd_samples a ! k \<le> 255" using rng by blast
    then have q: "0 \<le> nd_samples a ! k / 255" "nd_samples a ! k / 255 \<le> 1" by simp_all
    have "nd_samples ?t ! k = float32 (nd_samples a ! k / 255)"
      using k by (simp add: samples)
    with float32_unit_interval [OF q] show ?thesis by simp
  qed
  from run sh len each default_model_input_size show ?thesis by blast
qed

theorem preprocess_image_result_witness:
  "\<exists>t. preprocess_image raster_ext small_settings unloaded_processor
          (''RGB'', [[[255, 0, 0], [0, 254, 0]], [[0, 0, 255], [128, 128, 128]]])
          = (Inr t, unloaded_processor)
       \<and> t = Arr [Arr [Arr [Scalar (10000537 / 33554432), Scalar (4901579 / 8388608)],
                       Arr [Scalar (15263977 / 134217728), Scalar (8421505 / 16777216)]]]
       \<and> nd_shape t = [1, 2, 2]
       \<and> \<bar>nd_samples t ! 3 - 128 / 255\<bar> \<le> 1 / 2 ^ 25"
proof -
  let ?img = "(''RGB'', [[[255, 0, 0], [0, 254, 0]], [[0, 0, 255], [128, 128, 128]]]) :: raster"
  let ?g = "(''L'', [[[76], [149]], [[29], [128]]]) :: raster"
  let ?a = "Arr [Arr [Scalar 76, Scalar 149], Arr [Scalar 29, Scalar 128]]"
  have conv: "Image_mode raster_ext ?img \<noteq> ''L'' \<Longrightarrow> Image_convert raster_ext ?img ''L'' = Inr ?g"
    by (simp add: raster_ext_def raster_convert_def luma_def)
  have same: "Image_mode raster_ext ?img = ''L'' \<Longrightarrow> ?g = ?img"
    by (simp add: raster_ext_def)
  have res: "Image_resize raster_ext ?g (2, 2) = Inr ?g"
    by (simp add: raster_ext_def raster_resize_def raster_size_def raster_at_def upt_rec)
  have arr: "np_array_float32 raster_ext ?g = Inr ?a"
    by (simp add: raster_ext_def raster_array_def)
  have shp: "nd_shape ?a = [nat 2, nat 2]" by simp
  have rng: "\<forall>x \<in> set (nd_samples ?a). 0 \<le> x \<and> x \<le> 255" by simp
  from preprocess_image_result [OF conv same small_model_input_size res arr shp rng,
      of unloaded_processor]
  show ?thesis
    by (simp add: expand_dims0_def float32_76 float32_149 float32_29 float32_128)
qed

lemma preprocess_image_fst:
  "fst (preprocess_image ext st self img) =
     (case (if Image_mode ext img \<noteq> ''L'' then Image_convert ext img ''L'' else Inr img) of
        Inl e \<Rightarrow> Inl e
      | Inr g \<Rightarrow>
          (case Image_resize ext g (get_model_input_size st) of
             Inl e \<Rightarrow> Inl e
           | Inr r \<Rightarrow>
               (case np_array_float32 ext r of
                  Inl e \<Rightarrow> Inl e
                | Inr a \<Rightarrow> Inr (expand_dims0 (nd_div a 255)))))"
  by (simp add: preprocess_image_def Let_def split: sum.splits)

section \<open>The processor object\<close>

text \<open>
  Claim C10. No pipeline operation changes the processor after construction: whatever the
  input and whether the call succeeds or fails, \<open>validate_image\<close>,
  \<open>preprocess_image\<close>, \<open>predict\<close>, \<open>process_image\<close> and the endpoint return the
  processor with the model handle and the \<open>model_loaded\<close> flag they were given. Both
  are set by the constructor: to the loaded model and true when loading succeeds, to no
  model and false when it fails.
\<close>

theorem pipeline_keeps_processor:
  "snd (validate_image st self c n) = self
   \<and> snd (preprocess_image ext st self img) = self
   \<and> snd (predict ext self t) = self
   \<and> snd (process_image ext st self image_data fname c) = self
   \<and> snd (predict_image ext st self file) = self
   \<and> init ext st =
       (case keras_load_model ext (get_model_path ext st) of
          Inr m \<Rightarrow> \<lparr>model = Some m, model_loaded = True\<rparr>
        | Inl e \<Rightarrow> \<lparr>model = None, model_loaded = False\<rparr>)"
proof -
  have "init ext st =
       (case keras_load_model ext (get_model_path ext st) of
          Inr m \<Rightarrow> \<lparr>model = Some m, model_loaded = True\<rparr>
        | Inl e \<Rightarrow> \<lparr>model = None, model_loaded = False\<rparr>)"
    by (simp add: init_def load_model_def split: sum.splits)
  then show ?thesis
    by (simp add: validate_image_self preprocess_image_self predict_self process_image_self
        predict_image_self)
qed

theorem pipeline_keeps_processor_witness:
  "init grid_ext small_settings = stub_processor
   \<and> snd (process_image grid_ext small_settings stub_processor [0x47, 0, 255, 128]
             ''scan.png'' (Some ''image/png'')) = stub_processor
   \<and> snd (process_image grid_ext small_settings stub_processor [0x00, 0, 255, 128]
             ''scan.png'' (Some ''image/png'')) = stub_processor
   \<and> snd (predict grid_ext unloaded_processor (Arr [])) = unloaded_processor"
proof -
  have "init grid_ext small_settings = stub_processor"
    using pipeline_keeps_processor [of small_settings stub_processor None 0 grid_ext "[]" "Arr []"
        "[]" "[]" "\<lparr>upload_filename = None, upload_content_type = None, upload_data = []\<rparr>"]
    by (simp add: grid_ext_def stub_processor_def)
  then show ?thesis
    using pipeline_keeps_processor [of small_settings stub_processor "Some ''image/png''" 0 grid_ext
        "[]" "Arr []" "[0x47, 0, 255, 128]" "''scan.png''"
        "\<lparr>upload_filename = None, upload_content_type = None, upload_data = []\<rparr>"]
      pipeline_keeps_processor [of small_settings stub_processor "Some ''image/png''" 0 grid_ext
        "[]" "Arr []" "[0x00, 0, 255, 128]" "''scan.png''"
        "\<lparr>upload_filename = None, upload_content_type = None, upload_data = []\<rparr>"]
      pipeline_keeps_processor [of small_settings unloaded_processor None 0 grid_ext "[]" "Arr []"
        "[]" "[]" "\<lparr>upload_filename = None, upload_content_type = None, upload_data = []\<rparr>"]
    by simp
qed

section \<open>The pipeline and the endpoint\<close>

lemma small_allowed_image_types:
  "get_allowed_image_types small_settings =
     [''image/jpeg'', ''image/png'', ''image/tiff'', ''image/bmp'']"
  by (simp add: get_allowed_image_types_def small_settings_def default_settings_def strip_def
      is_space_def)

lemma small_valid:
  "fst (validate_image small_settings self (Some ''image/png'') (int (length [a, b, c, d :: byte])))"
  by (simp add: validate_image_def small_allowed_image_types)
    (simp add: small_settings_def default_settings_def)

lemma grid_open_sample: "Image_open grid_ext [0x47, 0, 255, 128] = Inr [[0, 255, 128]]"
  by (simp add: grid_ext_def grid_open_def)

lemma grid_array_sample:
  "np_array grid_ext [[0, 255, 128]] = Inr (Arr [Arr [Scalar 0, Scalar 255, Scalar 128]])"
  by (simp add: grid_ext_def grid_array_def)

lemma grid_preprocess_sample:
  "fst (preprocess_image grid_ext small_settings self [[0, 255, 128]])
     = Inr (Arr [Arr [Arr [Scalar 0, Scalar 1], Arr [Scalar 0, Scalar 1]]])"
  by (simp add: preprocess_image_fst small_model_input_size)
    (simp add: grid_ext_def grid_resize_def grid_size_def grid_at_def upt_rec grid_array_def
      expand_dims0_def float32_0 float32_1)

lemma predict_body_not_loaded:
  "\<not> model_loaded self \<Longrightarrow> predict_body ext self t = Inl (Raised RuntimeError ''Model not loaded'')"
  by (simp add: predict_body_def)

lemma predict_image_try_nonempty:
  "image_data \<noteq> [] \<Longrightarrow> predict_image_try ext st ip fname ct image_data
     = process_image ext st ip image_data fname ct"
  by (simp add: predict_image_try_def)

lemma valid_content_type:
  assumes "fst (validate_image st self ct n)"
  shows "\<exists>c. ct = Some c \<and> c \<noteq> []"
  using assms by (cases ct) (auto simp: validate_image_def split: if_splits)

lemma three_entries: "length v = 3 \<Longrightarrow> [v ! 0, v ! 1, v ! 2] = v"
  by (cases v; simp; cases "tl v"; simp; cases "tl (tl v)"; simp)

text \<open>
  Claim C5. For every input that passes validation and whose bytes decode to an image
  that the preprocessing accepts, a processor whose model is not loaded makes
  \<open>process_image\<close> fail with \<open>RuntimeError\<close>, which is not a \<open>ValueError\<close>; the
  endpoint answers it with 503 (service unavailable), not 400. No forward pass is made:
  whatever model handle the processor holds, \<open>predict\<close> fails in the same way.
\<close>

theorem process_image_model_not_loaded:
  assumes valid: "fst (validate_image st self ct (int (length image_data)))"
    and opened: "Image_open ext image_data = Inr img"
    and arr: "np_array ext img = Inr a"
    and pre: "fst (preprocess_image ext st self img) = Inr t"
    and unloaded: "\<not> model_loaded self"
    and name: "fname \<noteq> []"
    and data: "image_data \<noteq> []"
  shows "fst (process_image ext st self image_data fname ct)
           = Inl (Raised RuntimeError ''Model not loaded'')
       \<and> \<not> isinstance (Raised RuntimeError ''Model not loaded'') ValueError
       \<and> fst (predict_image ext st self
                \<lparr>upload_filename = Some fname, upload_content_type = ct,
                 upload_data = image_data\<rparr>)
           = Inl (HTTPException 503 ''Model service unavailable: Model not loaded'')
       \<and> (\<forall>m. fst (predict ext (self\<lparr>model := m\<rparr>) t)
                = Inl (Raised RuntimeError ''Model not loaded''))"
proof -
  have run: "process_image ext st self image_data fname ct
           = (Inl (Raised RuntimeError ''Model not loaded''), self)"
    using process_image_decoded [OF valid opened arr pre, of fname]
      predict_body_not_loaded [OF unloaded, of ext t] by simp
  obtain c where c: "ct = Some c" "c \<noteq> []" using valid_content_type [OF valid] by blast
  have http: "fst (predict_image ext st self
                \<lparr>upload_filename = Some fname, upload_content_type = ct,
                 upload_data = image_data\<rparr>)
           = Inl (HTTPException 503 ''Model service unavailable: Model not loaded'')"
    using run c name data
    by (simp add: predict_image_def predict_image_try_nonempty)
  have "\<forall>m. fst (predict ext (self\<lparr>model := m\<rparr>) t)
                = Inl (Raised RuntimeError ''Model not loaded'')"
    using unloaded by (simp add: predict_def predict_body_def)
  with run http show ?thesis by simp
qed

theorem process_image_model_not_loaded_witness:
  "fst (process_image grid_ext small_settings unloaded_processor [0x47, 0, 255, 128]
          ''scan.png'' (Some ''image/png''))
     = Inl (Raised RuntimeError ''Model not loaded'')
   \<and> status_code (fst (predict_image grid_ext small_settings unloaded_processor
        \<lparr>upload_filename = Some ''scan.png'', upload_content_type = Some ''image/png'',
         upload_data = [0x47, 0, 255, 128]\<rparr>)) = 503"
proof -
  have u: "\<not> model_loaded unloaded_processor" by (simp add: unloaded_processor_def)
  have n: "''scan.png'' \<noteq> []" by simp
  have d: "[0x47, 0, 255, 128 :: byte] \<noteq> []" by simp
  from process_image_model_not_loaded [OF small_valid grid_open_sample grid_array_sample
      grid_preprocess_sample u n d]
  show ?thesis by simp
qed

text \<open>
  Claim C7. For every valid image input (allow-listed content type, size within the
  limit, decodable bytes) processed with a loaded model that returns a vector of three
  probabilities, \<open>process_image\<close> succeeds; the confidence of the prediction lies
  between 0 and 1, and the probabilities of the result are the model's output, entry for
  entry, so their sum is as close to 1 as the sum of the model's output is.
\<close>

theorem process_image_valid_distribution:
  assumes valid: "fst (validate_image st self ct (int (length image_data)))"
    and opened: "Image_open ext image_data = Inr img"
    and arr: "np_array ext img = Inr a"
    and pre: "fst (preprocess_image ext st self img) = Inr t"
    and loaded: "model_loaded self"
    and handle: "model self = Some m"
    and out: "m t = Inr (v # rest)"
    and three: "length v = 3"
    and prob: "\<forall>x \<in> set v. 0 \<le> x \<and> x \<le> 1"
    and total: "\<bar>sum_list v - 1\<bar> \<le> eps"
  shows "\<exists>resp. process_image ext st self image_data fname ct = (Inr resp, self)
           \<and> 0 \<le> confidence (prediction_result resp)
           \<and> confidence (prediction_result resp) \<le> 1
           \<and> map snd (probabilities (prediction_result resp)) = v
           \<and> \<bar>sum_list (map snd (probabilities (prediction_result resp))) - 1\<bar> \<le> eps"
proof -
  from predict_body_three [OF loaded handle out three, of ext] obtain i where i: "i < 3"
    and run: "predict_body ext self t =
               Inr \<lparr>prediction = class_labels ! i,
                    confidence = v ! i,
                    probabilities = [(''Benign Case'', v ! 0), (''Malignant Case'', v ! 1),
                                     (''Normal Case'', v ! 2)],
                    processing_time_ms = (time_end ext - time_start ext) * 1000\<rparr>"
    by blast
  have "v ! i \<in> set v" using i three by simp
  then have conf: "0 \<le> v ! i \<and> v ! i \<le> 1" using prob by blast
  have "process_image ext st self image_data fname ct =
      (Inr \<lparr>status = ''success'', filename = fname,
            image_info = fst (extract_image_info ext self img (int (length image_data))),
            image_stats = fst (calculate_image_stats ext self a (int (length image_data))),
            prediction_result =
              \<lparr>prediction = class_labels ! i,
               confidence = v ! i,
               probabilities = [(''Benign Case'', v ! 0), (''Malignant Case'', v ! 1),
                                (''Normal Case'', v ! 2)],
               processing_time_ms = (time_end ext - time_start ext) * 1000\<rparr>,
            message = ''Image processed successfully'',
            timestamp = utcnow_isoformat ext\<rparr>, self)"
    using process_image_decoded [OF valid opened arr pre, of fname] run conf
    by (simp add: new_PredictionResult_def)
  then show ?thesis
    using conf total three_entries [OF three] by simp
qed

theorem process_image_valid_distribution_witness:
  "\<exists>resp. process_image grid_ext small_settings stub_processor [0x47, 0, 255, 128]
             ''scan.png'' (Some ''image/png'') = (Inr resp, stub_processor)
      \<and> 0 \<le> confidence (prediction_result resp)
      \<and> confidence (prediction_result resp) \<le> 1
      \<and> map snd (probabilities (prediction_result resp)) = [7 / 10, 2 / 10, 1 / 10]
      \<and> \<bar>sum_list (map snd (probabilities (prediction_result resp))) - 1\<bar> \<le> 0"
proof -
  have l: "model_loaded stub_processor" by (simp add: stub_processor_def)
  have h: "model stub_processor = Some stub_model" by (simp add: stub_processor_def)
  have out: "stub_model (Arr [Arr [Arr [Scalar 0, Scalar 1], Arr [Scalar 0, Scalar 1]]])
      = Inr ([7 / 10, 2 / 10, 1 / 10] # [])"
    by (simp add: stub_model_def)
  have three: "length [7 / 10, 2 / 10, 1 / 10 :: real] = 3" by simp
  have prob: "\<forall>x \<in> set [7 / 10, 2 / 10, 1 / 10 :: real]. 0 \<le> x \<and> x \<le> 1" by simp
  have total: "\<bar>sum_list [7 / 10, 2 / 10, 1 / 10 :: real] - 1\<bar> \<le> 0" by simp
  from process_image_valid_distribution [OF small_valid grid_open_sample grid_array_sample
      grid_preprocess_sample l h out three prob total, of "''scan.png''"]
  show ?thesis by simp
qed

text \<open>
  Claim C1. The claim is that a non-empty payload with an allow-listed content type and an
  admissible size whose bytes are no image fails as invalid input (400). The code does
  otherwise: Pillow reports such bytes with \<open>UnidentifiedImageError\<close>, which is an
  \<open>OSError\<close> and not a \<open>ValueError\<close>, so \<open>process_image\<close> raises it unchanged and the
  last handler of the endpoint turns it into the status 500.
\<close>

theorem predict_image_undecodable:
  assumes name: "fname \<noteq> []"
    and data: "image_data \<noteq> []"
    and valid: "fst (validate_image st ip ct (int (length image_data)))"
    and opened: "Image_open ext image_data = Inl (Raised UnidentifiedImageError msg)"
  shows "fst (process_image ext st ip image_data fname ct)
           = Inl (Raised UnidentifiedImageError msg)
       \<and> \<not> isinstance (Raised UnidentifiedImageError msg) ValueError
       \<and> predict_image ext st ip
            \<lparr>upload_filename = Some fname, upload_content_type = ct,
             upload_data = image_data\<rparr>
           = (Inl (HTTPException 500 ''Internal server error during image processing''), ip)
       \<and> status_code (fst (predict_image ext st ip
            \<lparr>upload_filename = Some fname, upload_content_type = ct,
             upload_data = image_data\<rparr>)) = 500"
proof -
  have run: "process_image ext st ip image_data fname ct
      = (Inl (Raised UnidentifiedImageError msg), ip)"
    using valid opened by (rule process_image_open_fails)
  obtain c where c: "ct = Some c" "c \<noteq> []" using valid_content_type [OF valid] by blast
  have "predict_image ext st ip
            \<lparr>upload_filename = Some fname, upload_content_type = ct,
             upload_data = image_data\<rparr>
           = (Inl (HTTPException 500 ''Internal server error during image processing''), ip)"
    using run c name data by (simp add: predict_image_def predict_image_try_nonempty)
  with run show ?thesis by simp
qed

theorem predict_image_undecodable_witness:
  "predict_image grid_ext small_settings stub_processor
     \<lparr>upload_filename = Some ''test.png'', upload_content_type = Some ''image/png'',
      upload_data = [0x54, 0x68, 0x69, 0x73]\<rparr>
     = (Inl (HTTPException 500 ''Internal server error during image processing''),
        stub_processor)"
proof -
  have n: "''test.png'' \<noteq> []" by simp
  have d: "[0x54, 0x68, 0x69, 0x73 :: byte] \<noteq> []" by simp
  have opened: "Image_open grid_ext [0x54, 0x68, 0x69, 0x73]
      = Inl (Raised UnidentifiedImageError ''cannot identify image file'')"
    by (simp add: grid_ext_def grid_open_def)
  from predict_image_undecodable [OF n d small_valid opened]
  show ?thesis by simp
qed

text \<open>
  Claim C6. The claim is that an empty payload fails as invalid input (400) whatever the
  declared content type, by a guard that runs before the validation. The guard is there
  and raises \<open>HTTPException(400)\<close>, but it stands inside the \<open>try\<close> of the endpoint:
  \<open>HTTPException\<close> is neither a \<open>ValueError\<close> nor a \<open>RuntimeError\<close>, so the handler for
  \<open>Exception\<close> catches it and the response has status 500.
\<close>

theorem predict_image_empty_file:
  assumes "fname \<noteq> []" and "c \<noteq> []"
  shows "predict_image_try ext st ip fname (Some c) []
           = (Inl (HTTPException 400 ''Empty file provided''), ip)
       \<and> predict_image ext st ip
            \<lparr>upload_filename = Some fname, upload_content_type = Some c, upload_data = []\<rparr>
           = (Inl (HTTPException 500 ''Internal server error during image processing''), ip)
       \<and> status_code (fst (predict_image ext st ip
            \<lparr>upload_filename = Some fname, upload_content_type = Some c, upload_data = []\<rparr>))
           = 500"
  using assms by (simp add: predict_image_def predict_image_try_def)

theorem predict_image_empty_file_witness:
  "status_code (fst (predict_image grid_ext default_settings stub_processor
      \<lparr>upload_filename = Some ''empty.jpg'', upload_content_type = Some ''image/jpeg'',
       upload_data = []\<rparr>)) = 500"
proof -
  have n: "''empty.jpg'' \<noteq> []" by simp
  have c: "''image/jpeg'' \<noteq> []" by simp
  from predict_image_empty_file [OF n c, of grid_ext default_settings stub_processor]
  show ?thesis by simp
qed

end
